theory Spec2Isabelle
  imports Complex_Main "HOL-Library.Sublist"
begin

section \<open>Python values and strings\<close>

text \<open>
  The program is a FastAPI application (\<^verbatim>\<open>src/app/main.py\<close>). A Python \<^verbatim>\<open>str\<close> is
  modelled as a \<^typ>\<open>string\<close>; one \<^typ>\<open>char\<close> stands for one code point below 256, so
  \<^term>\<open>length\<close> counts what Python's \<^verbatim>\<open>len\<close> counts on such strings. Python's
  unbounded \<^verbatim>\<open>int\<close> is \<^typ>\<open>int\<close>.
\<close>

text \<open>
  Exceptions. \<open>HTTPException c\<close> is \<^verbatim>\<open>HTTPException(status_code=c)\<close> raised by the
  endpoints (the French detail text is left out). \<open>ValidationError\<close> is what pydantic
  raises when a model cannot be built from its input (FastAPI answers 422).
  \<open>ValueError\<close>, \<open>OverflowError\<close> and \<open>OSError\<close> are the Python exceptions of
  these names;
  \<open>TemplateError\<close> is any exception of the template engine.
\<close>

datatype exn =
    ValidationError | HTTPException nat | ValueError | OverflowError | OSError | TemplateError

fun str_nat :: "nat \<Rightarrow> string" where
  "str_nat n =
     (if n < 10 then [''0123456789'' ! n]
      else str_nat (n div 10) @ [''0123456789'' ! (n mod 10)])"

declare str_nat.simps [simp del]

definition str_int :: "int \<Rightarrow> string" where
  \<comment> \<open>\<^verbatim>\<open>str(i)\<close>, also what an f-string prints for \<^verbatim>\<open>{i}\<close>\<close>
  "str_int i = (if i < 0 then ''-'' @ str_nat (nat (- i)) else str_nat (nat i))"

definition zfill :: "nat \<Rightarrow> string \<Rightarrow> string" where
  "zfill w s = replicate (w - length s) (CHR ''0'') @ s"

definition fmt_02d :: "int \<Rightarrow> string" where
  \<comment> \<open>\<^verbatim>\<open>f"{i:02d}"\<close>: the sign counts in the width\<close>
  "fmt_02d i = (if i < 0 then ''-'' @ zfill 1 (str_nat (nat (- i))) else zfill 2 (str_nat (nat i)))"

definition isdecimal_char :: "char \<Rightarrow> bool" where
  "isdecimal_char c = (c \<in> set ''0123456789'')"





section \<open>Request models\<close>

record IntermediateTemplateRequest =
  base_template_name :: string
  tenant_info :: "string list"
  tenant_number :: string
  address :: "string list"
  amount :: real
  intermediate_template_name :: string



record DocumentRequest =
  doc_template_name :: string
  doc_year :: "int option"
  doc_month :: "int option"

definition parse_DocumentRequest :: "DocumentRequest \<Rightarrow> exn + DocumentRequest" where
  \<comment> \<open>\<^verbatim>\<open>month: Optional[int] = Field(None, ge=1, le=12)\<close>\<close>
  "parse_DocumentRequest body =
     (case doc_month body of
        None \<Rightarrow> Inr body
      | Some m \<Rightarrow> if 1 \<le> m \<and> m \<le> 12 then Inr body else Inl ValidationError)"


section \<open>Dates\<close>

text \<open>
  \<^verbatim>\<open>datetime.date(year, month, day)\<close> converts its arguments to C integers
  (\<^verbatim>\<open>OverflowError\<close> beyond 32 bits), and raises \<^verbatim>\<open>ValueError\<close> unless
  \<open>1 \<le> year \<le> 9999\<close>, \<open>1 \<le> month \<le> 12\<close> and the day exists in that month.
\<close>

definition isleap :: "int \<Rightarrow> bool" where
  "isleap year = (year mod 4 = 0 \<and> (year mod 100 \<noteq> 0 \<or> year mod 400 = 0))"

definition mdays :: "int list" where
  "mdays = [0, 31, 28, 31, 30, 31, 30, 31, 31, 30, 31, 30, 31]"

definition monthrange_ndays :: "int \<Rightarrow> int \<Rightarrow> exn + int" where
  \<comment> \<open>\<^verbatim>\<open>calendar.monthrange(year, month)[1]\<close>; \<^verbatim>\<open>IllegalMonthError\<close> is a
      \<^verbatim>\<open>ValueError\<close>\<close>
  "monthrange_ndays year month =
     (if \<not> (1 \<le> month \<and> month \<le> 12) then Inl ValueError
      else Inr (mdays ! nat month + (if month = 2 \<and> isleap year then 1 else 0)))"

definition c_int :: "int \<Rightarrow> bool" where
  "c_int i = (- (2 ^ 31) \<le> i \<and> i < 2 ^ 31)"

definition MINYEAR :: int where "MINYEAR = 1"
definition MAXYEAR :: int where "MAXYEAR = 9999"

definition date :: "int \<Rightarrow> int \<Rightarrow> int \<Rightarrow> exn + (int \<times> int \<times> int)" where
  "date year month day =
     (if \<not> (c_int year \<and> c_int month \<and> c_int day) then Inl OverflowError
      else if \<not> (MINYEAR \<le> year \<and> year \<le> MAXYEAR) then Inl ValueError
      else if \<not> (1 \<le> month \<and> month \<le> 12) then Inl ValueError
      else if \<not> (1 \<le> day \<and>
                   day \<le> mdays ! nat month + (if month = 2 \<and> isleap year then 1 else 0))
      then Inl ValueError
      else Inr (year, month, day))"

definition strftime_dmY :: "bool \<Rightarrow> int \<times> int \<times> int \<Rightarrow> string" where
  \<comment> \<open>\<^verbatim>\<open>d.strftime("%d/%m/%Y")\<close>. The C library decides whether \<^verbatim>\<open>%Y\<close> pads a
      year below 1000 with zeros to four digits; the flag says whether it does.\<close>
  "strftime_dmY pad d =
     (case d of (year, month, day) \<Rightarrow>
        zfill 2 (str_int day) @ ''/'' @ zfill 2 (str_int month) @ ''/'' @
        (if pad then zfill 4 (str_int year) else str_int year))"

section \<open>The template engine\<close>

text \<open>
  \<^verbatim>\<open>render_template\<close> hands the template to Jinja2 (\<^verbatim>\<open>Template(s).render(**context)\<close>
  with the default environment). The library is not part of the repository. Its
  behaviour is written out for the templates made of literal text and of variable
  placeholders \<^verbatim>\<open>{{ name }}\<close>: a bound name prints \<^verbatim>\<open>str\<close> of its value, an unbound
  name is the engine's \<^verbatim>\<open>Undefined\<close>, which prints as the empty string. What the
  engine does with every other template (statements, comments, filters, compound
  expressions, the engine's own global names, syntax errors) is left open: it is the
  field \<open>jinja_other\<close> of the environment, an arbitrary function of the template and
  the context.
\<close>

datatype pyvalue = PyStr string | PyInt int | PyFloat real | PyList "string list"

type_synonym context_dict = "string \<Rightarrow> pyvalue option"

record environment =
  now_year :: int
  now_month :: int
  strftime_pads_year :: bool
  py_str :: "pyvalue \<Rightarrow> string"
  jinja_other :: "string \<Rightarrow> context_dict \<Rightarrow> exn + string"

text \<open>
  \<open>now_year\<close> and \<open>now_month\<close> are what \<^verbatim>\<open>datetime.datetime.now()\<close> gives;
  \<open>py_str\<close> is \<^verbatim>\<open>str\<close> on lists and floats, whose formatting is not modelled.
\<close>

definition to_text :: "environment \<Rightarrow> pyvalue \<Rightarrow> string" where
  "to_text env v =
     (case v of PyStr s \<Rightarrow> s | PyInt i \<Rightarrow> str_int i | _ \<Rightarrow> py_str env v)"

definition CR :: char where "CR = CHR 0x0D"
definition LF :: char where "LF = CHR 0x0A"

fun universal_newlines :: "string \<Rightarrow> string" where
  \<comment> \<open>every \<^verbatim>\<open>\r\n\<close> and every remaining \<^verbatim>\<open>\r\<close> becomes \<^verbatim>\<open>\n\<close>\<close>
  "universal_newlines [] = []"
| "universal_newlines [c] = (if c = CR then [LF] else [c])"
| "universal_newlines (c # d # cs) =
     (if c = CR \<and> d = LF then LF # universal_newlines cs
      else if c = CR then LF # universal_newlines (d # cs)
      else c # universal_newlines (d # cs))"

definition jinja_source :: "string \<Rightarrow> string" where
  \<comment> \<open>the lexer's preprocessing: newlines are normalised and, with
      \<^verbatim>\<open>keep_trailing_newline\<close> off, one trailing newline is dropped\<close>
  "jinja_source s =
     (let t = universal_newlines s in
      if t \<noteq> [] \<and> last t = LF then butlast t else t)"

datatype token = Data string | Variable string

datatype lex_state =
    InData | AfterBrace | VarStart | InName string | NameEnd string | Closing string

definition name_start :: "char \<Rightarrow> bool" where
  "name_start c =
     (c \<in> set ''abcdefghijklmnopqrstuvwxyzABCDEFGHIJKLMNOPQRSTUVWXYZ_'')"

definition name_char :: "char \<Rightarrow> bool" where
  "name_char c = (name_start c \<or> c \<in> set ''0123456789'')"

definition reserved_names :: "string list" where
  \<comment> \<open>names the engine does not look up in the context as plain variables:
      constants, operators, and the globals of the default environment\<close>
  "reserved_names =
     [''true'', ''false'', ''none'', ''True'', ''False'', ''None'',
      ''not'', ''and'', ''or'', ''in'', ''is'', ''if'', ''else'', ''self'',
      ''range'', ''dict'', ''lipsum'', ''cycler'', ''joiner'', ''namespace'']"

fun scan :: "lex_state \<Rightarrow> string \<Rightarrow> string \<Rightarrow> token list option" where
  \<comment> \<open>\<open>None\<close>: the template is not made of text and \<^verbatim>\<open>{{ name }}\<close> only\<close>
  "scan InData d [] = Some [Data d]"
| "scan AfterBrace d [] = Some [Data (d @ ''{'')]"
| "scan st d [] = None"
| "scan InData d (c # cs) =
     (if c = CHR ''{'' then scan AfterBrace d cs else scan InData (d @ [c]) cs)"
| "scan AfterBrace d (c # cs) =
     (if c = CHR ''{'' then map_option (Cons (Data d)) (scan VarStart [] cs)
      else if c = CHR ''%'' \<or> c = CHR ''#'' then None
      else scan InData (d @ [CHR ''{'', c]) cs)"
| "scan VarStart d (c # cs) =
     (if c = CHR '' '' then scan VarStart d cs
      else if name_start c then scan (InName [c]) d cs
      else None)"
| "scan (InName n) d (c # cs) =
     (if name_char c then scan (InName (n @ [c])) d cs
      else if c = CHR '' '' then scan (NameEnd n) d cs
      else if c = CHR ''}'' then scan (Closing n) d cs
      else None)"
| "scan (NameEnd n) d (c # cs) =
     (if c = CHR '' '' then scan (NameEnd n) d cs
      else if c = CHR ''}'' then scan (Closing n) d cs
      else None)"
| "scan (Closing n) d (c # cs) =
     (if c = CHR ''}'' \<and> n \<notin> set reserved_names
      then map_option (Cons (Variable n)) (scan InData [] cs)
      else None)"

definition expand :: "environment \<Rightarrow> context_dict \<Rightarrow> token \<Rightarrow> string" where
  "expand env ctx t =
     (case t of
        Data d \<Rightarrow> d
      | Variable n \<Rightarrow> (case ctx n of None \<Rightarrow> [] | Some v \<Rightarrow> to_text env v))"

definition render_template :: "environment \<Rightarrow> string \<Rightarrow> context_dict \<Rightarrow> exn + string" where
  "render_template env template_str ctx =
     (case scan InData [] (jinja_source template_str) of
        Some toks \<Rightarrow> Inr (concat (map (expand env ctx) toks))
      | None \<Rightarrow> jinja_other env template_str ctx)"

section \<open>The file system\<close>

text \<open>
  A file system maps a normalised absolute path (the list of its components below the
  root) to a directory or to a regular file. A file carries its text and a flag that
  says whether the process may open it. The root is always a directory. There are no
  symbolic links, no permissions on directories, no limits on names and no full disk.
\<close>

datatype node = Dir | File bool string

type_synonym path = "string list"

type_synonym filesystem = "path \<Rightarrow> node option"

definition node_at :: "filesystem \<Rightarrow> path \<Rightarrow> node option" where
  "node_at fs p = (if p = [] then Some Dir else fs p)"

definition is_dir :: "filesystem \<Rightarrow> path \<Rightarrow> bool" where
  "is_dir fs p = (node_at fs p = Some Dir)"

fun split_sep :: "string \<Rightarrow> string \<Rightarrow> string list" where
  \<comment> \<open>the components of a path name between the \<^verbatim>\<open>/\<close>\<close>
  "split_sep acc [] = [acc]"
| "split_sep acc (c # cs) =
     (if c = CHR ''/'' then acc # split_sep [] cs else split_sep (acc @ [c]) cs)"

definition step :: "path \<Rightarrow> string \<Rightarrow> path" where
  "step cur c =
     (if c = [] \<or> c = ''.'' then cur
      else if c = ''..'' then butlast cur
      else cur @ [c])"

fun walk :: "filesystem \<Rightarrow> path \<Rightarrow> string list \<Rightarrow> path option" where
  \<comment> \<open>path resolution by the kernel: every component is looked up in a directory\<close>
  "walk fs cur [] = Some cur"
| "walk fs cur (c # cs) = (if is_dir fs cur then walk fs (step cur c) cs else None)"

definition resolve :: "filesystem \<Rightarrow> string \<Rightarrow> path option" where
  \<comment> \<open>every path name the program builds is absolute\<close>
  "resolve fs name = walk fs [] (split_sep [] name)"

definition stat :: "filesystem \<Rightarrow> string \<Rightarrow> node option" where
  \<comment> \<open>what a path name leads to, if anything\<close>
  "stat fs name = (case resolve fs name of None \<Rightarrow> None | Some p \<Rightarrow> node_at fs p)"

definition isfile :: "filesystem \<Rightarrow> string \<Rightarrow> bool" where
  \<comment> \<open>\<^verbatim>\<open>os.path.isfile\<close>\<close>
  "isfile fs name = (case stat fs name of Some (File a c) \<Rightarrow> True | _ \<Rightarrow> False)"

definition read_text :: "filesystem \<Rightarrow> string \<Rightarrow> string option" where
  \<comment> \<open>\<^verbatim>\<open>open(name, "r", encoding="utf-8").read()\<close>; \<open>None\<close> is an exception. Text
      mode translates the newlines.\<close>
  "read_text fs name =
     (case stat fs name of
        Some (File a c) \<Rightarrow> if a then Some (universal_newlines c) else None
      | _ \<Rightarrow> None)"

definition write_text :: "filesystem \<Rightarrow> string \<Rightarrow> string \<Rightarrow> filesystem option" where
  \<comment> \<open>\<^verbatim>\<open>open(name, "w", encoding="utf-8").write(s)\<close>; \<open>None\<close> is an exception\<close>
  "write_text fs name s =
     (case resolve fs name of
        None \<Rightarrow> None
      | Some p \<Rightarrow>
          (case node_at fs p of
             None \<Rightarrow> Some (fs(p \<mapsto> File True s))
           | Some Dir \<Rightarrow> None
           | Some (File a c) \<Rightarrow> if a then Some (fs(p \<mapsto> File True s)) else None))"

definition ensure_dir :: "filesystem \<Rightarrow> path \<Rightarrow> filesystem option" where
  "ensure_dir fs p =
     (case node_at fs p of
        None \<Rightarrow> Some (fs(p \<mapsto> Dir))
      | Some Dir \<Rightarrow> Some fs
      | Some (File a c) \<Rightarrow> None)"

fun mkwalk :: "filesystem \<Rightarrow> path \<Rightarrow> string list \<Rightarrow> filesystem \<times> bool" where
  "mkwalk fs cur [] =
     (case ensure_dir fs cur of None \<Rightarrow> (fs, False) | Some fs' \<Rightarrow> (fs', True))"
| "mkwalk fs cur (c # cs) =
     (case ensure_dir fs cur of
        None \<Rightarrow> (fs, False)
      | Some fs' \<Rightarrow> mkwalk fs' (step cur c) cs)"

definition makedirs :: "filesystem \<Rightarrow> string \<Rightarrow> filesystem \<times> bool" where
  \<comment> \<open>\<^verbatim>\<open>os.makedirs(name, exist_ok=True)\<close>: the missing directories along the path
      are created; \<open>False\<close> is the \<^verbatim>\<open>OSError\<close> raised when a file is in the way, and
      the directories created until then stay\<close>
  "makedirs fs name = mkwalk fs [] (split_sep [] name)"

definition join2 :: "string \<Rightarrow> string \<Rightarrow> string" where
  "join2 path b =
     (if b \<noteq> [] \<and> hd b = CHR ''/'' then b
      else if path = [] \<or> last path = CHR ''/'' then path @ b
      else path @ ''/'' @ b)"

definition os_path_join :: "string \<Rightarrow> string list \<Rightarrow> string" where
  \<comment> \<open>\<^verbatim>\<open>os.path.join(a, *p)\<close> of \<^verbatim>\<open>posixpath\<close>\<close>
  "os_path_join a p = foldl join2 a p"

definition INTERMEDIATE_TEMPLATE_DIR :: string where
  "INTERMEDIATE_TEMPLATE_DIR = ''/data/intermediate''"
definition FINAL_DOCUMENT_DIR :: string where "FINAL_DOCUMENT_DIR = ''/data/final''"

section \<open>Utility functions and endpoints\<close>

definition get_first_last_day :: "environment \<Rightarrow> int \<Rightarrow> int \<Rightarrow> exn + (string \<times> string)" where
  "get_first_last_day env year month =
     (case date year month 1 of
        Inl e \<Rightarrow> Inl e
      | Inr d1 \<Rightarrow>
          let first_day = strftime_dmY (strftime_pads_year env) d1 in
          (case monthrange_ndays year month of
             Inl e \<Rightarrow> Inl e
           | Inr last_day_num \<Rightarrow>
               (case date year month last_day_num of
                  Inl e \<Rightarrow> Inl e
                | Inr d2 \<Rightarrow> Inr (first_day, strftime_dmY (strftime_pads_year env) d2))))"



definition document_context :: "string \<Rightarrow> string \<Rightarrow> int \<Rightarrow> int \<Rightarrow> context_dict" where
  "document_context first_day last_day year month =
     map_of
       [(''first_day'', PyStr first_day),
        (''last_day'', PyStr last_day),
        (''year'', PyInt year),
        (''month'', PyStr (fmt_02d month))]"

definition final_dir_of :: "string \<Rightarrow> int \<Rightarrow> string" where
  "final_dir_of name year = os_path_join FINAL_DOCUMENT_DIR [name, str_int year]"

definition final_filename_of :: "string \<Rightarrow> int \<Rightarrow> int \<Rightarrow> string" where
  \<comment> \<open>\<^verbatim>\<open>f"{name}_{month:02d}_{year}.html"\<close>\<close>
  "final_filename_of name year month =
     name @ ''_'' @ fmt_02d month @ ''_'' @ str_int year @ ''.html''"

definition final_document_path_of :: "string \<Rightarrow> int \<Rightarrow> int \<Rightarrow> string" where
  "final_document_path_of name year month =
     os_path_join (final_dir_of name year) [final_filename_of name year month]"

definition generate_document ::
  "environment \<Rightarrow> filesystem \<Rightarrow> DocumentRequest \<Rightarrow> filesystem \<times> (exn + string \<times> string)" where
  "generate_document env fs request =
     (let year = (case doc_year request of Some y \<Rightarrow> y | None \<Rightarrow> now_year env);
          month = (case doc_month request of Some m \<Rightarrow> m | None \<Rightarrow> now_month env) in
      if month < 1 \<or> month > 12 then (fs, Inl (HTTPException 400))
      else
        (case get_first_last_day env year month of
           Inl e \<Rightarrow> (fs, Inl e)
         | Inr (first_day, last_day) \<Rightarrow>
             let intermediate_template_path =
                   os_path_join INTERMEDIATE_TEMPLATE_DIR [doc_template_name request] in
             if \<not> isfile fs intermediate_template_path then (fs, Inl (HTTPException 404))
             else
               (case read_text fs intermediate_template_path of
                  None \<Rightarrow> (fs, Inl (HTTPException 500))
                | Some intermediate_template_content \<Rightarrow>
                    (case render_template env intermediate_template_content
                            (document_context first_day last_day year month) of
                       Inl e \<Rightarrow> (fs, Inl (HTTPException 500))
                     | Inr final_document_content \<Rightarrow>
                         (case makedirs fs (final_dir_of (doc_template_name request) year) of
                            (fs1, False) \<Rightarrow> (fs1, Inl OSError)
                          | (fs1, True) \<Rightarrow>
                              let final_filename =
                                    final_filename_of (doc_template_name request) year month;
                                  final_document_path =
                                    final_document_path_of (doc_template_name request) year month in
                              (case write_text fs1 final_document_path final_document_content of
                                 None \<Rightarrow> (fs1, Inl (HTTPException 500))
                               | Some fs2 \<Rightarrow> (fs2, Inr (final_filename, final_document_path))))))))"

fun generate_months ::
  "environment \<Rightarrow> filesystem \<Rightarrow> string \<Rightarrow> int \<Rightarrow> int list \<Rightarrow> string list \<Rightarrow>
   filesystem \<times> (exn + string list)" where
  \<comment> \<open>the body of the loop \<^verbatim>\<open>for month in range(1, 13)\<close> over the months still to do\<close>
  "generate_months env fs name year [] generated_files = (fs, Inr generated_files)"
| "generate_months env fs name year (month # months) generated_files =
     (case parse_DocumentRequest
             \<lparr>doc_template_name = name, doc_year = Some year, doc_month = Some month\<rparr> of
        Inl e \<Rightarrow> (fs, Inl e)
      | Inr doc_request \<Rightarrow>
          (case generate_document env fs doc_request of
             (fs', Inl e) \<Rightarrow> (fs', Inl e)
           | (fs', Inr result) \<Rightarrow>
               generate_months env fs' name year months (generated_files @ [fst result])))"




definition post_generate_document ::
  "environment \<Rightarrow> filesystem \<Rightarrow> DocumentRequest \<Rightarrow> filesystem \<times> (exn + string \<times> string)" where
  "post_generate_document env fs body =
     (case parse_DocumentRequest body of
        Inl e \<Rightarrow> (fs, Inl e)
      | Inr request \<Rightarrow> generate_document env fs request)"

section \<open>Notions used to state the properties\<close>

subsection \<open>The calendar\<close>

definition leap_year_spec :: "int \<Rightarrow> bool" where
  \<comment> \<open>the Gregorian rule\<close>
  "leap_year_spec y = (4 dvd y \<and> (\<not> 100 dvd y \<or> 400 dvd y))"

definition days_in_month_spec :: "int \<Rightarrow> int \<Rightarrow> int" where
  "days_in_month_spec y m =
     (if m = 2 then (if leap_year_spec y then 29 else 28)
      else if m = 4 \<or> m = 6 \<or> m = 9 \<or> m = 11 then 30
      else 31)"

subsection \<open>Templates made of text and placeholders\<close>

definition placeholder :: "string \<Rightarrow> string" where
  "placeholder n = ''{{ '' @ n @ '' }}''"

fun unparse :: "token list \<Rightarrow> string" where
  "unparse [] = []"
| "unparse (Data d # ts) = d @ unparse ts"
| "unparse (Variable n # ts) = placeholder n @ unparse ts"

definition variable_name :: "string \<Rightarrow> bool" where
  "variable_name n =
     (n \<noteq> [] \<and> name_start (hd n) \<and> list_all name_char n \<and> n \<notin> set reserved_names)"

fun simple_token :: "token \<Rightarrow> bool" where
  "simple_token (Data d) = (CHR ''{'' \<notin> set d)"
| "simple_token (Variable n) = variable_name n"

subsection \<open>Requests and runs of the document generator\<close>

definition req_year :: "environment \<Rightarrow> DocumentRequest \<Rightarrow> int" where
  "req_year env request = (case doc_year request of Some y \<Rightarrow> y | None \<Rightarrow> now_year env)"

definition req_month :: "environment \<Rightarrow> DocumentRequest \<Rightarrow> int" where
  "req_month env request = (case doc_month request of Some m \<Rightarrow> m | None \<Rightarrow> now_month env)"

definition month_request :: "string \<Rightarrow> int \<Rightarrow> int \<Rightarrow> DocumentRequest" where
  "month_request name year month =
     \<lparr>doc_template_name = name, doc_year = Some year, doc_month = Some month\<rparr>"

text \<open>
  \<open>run_ok env t y fs ms ss\<close>: starting in \<open>fs\<close>, the document generator is called for
  the months \<open>ms\<close> one after the other, every call succeeds with the file name and
  path of its month, and \<open>ss\<close> lists the file system after each call.
\<close>

fun run_ok ::
  "environment \<Rightarrow> string \<Rightarrow> int \<Rightarrow> filesystem \<Rightarrow> int list \<Rightarrow> filesystem list \<Rightarrow> bool" where
  "run_ok env t y fs [] [] = True"
| "run_ok env t y fs (m # ms) (s # ss) =
     (generate_document env fs (month_request t y m) =
        (s, Inr (final_filename_of t y m, final_document_path_of t y m)) \<and>
      run_ok env t y s ms ss)"
| "run_ok env t y fs ms ss = False"

definition path_prefix :: "string \<Rightarrow> int \<Rightarrow> string" where
  \<comment> \<open>the part of the final path before the month\<close>
  "path_prefix t y =
     (if t \<noteq> [] \<and> hd t = CHR ''/'' then t @ ''_'' else final_dir_of t y @ ''/'' @ t @ ''_'')"

definition root_path :: "string \<Rightarrow> path" where
  "root_path dir = filter (\<lambda>c. c \<noteq> []) (split_sep [] dir)"

definition under_root :: "string \<Rightarrow> path \<Rightarrow> bool" where
  "under_root dir p = prefix (root_path dir) p"

subsection \<open>File systems on which the document generator succeeds\<close>

text \<open>
  \<open>tidy env t y M c fs\<close>: the three roots exist, the intermediate template \<open>t\<close>, a
  plain file name, holds the text \<open>c\<close> and can be read, \<open>c\<close> renders for every month
  of \<open>M\<close>, and nothing is in the way of the final documents of the months of \<open>M\<close>.
\<close>

definition plain_name :: "string \<Rightarrow> bool" where
  "plain_name t = (CHR ''/'' \<notin> set t \<and> t \<noteq> [] \<and> t \<noteq> ''.'' \<and> t \<noteq> ''..'')"

definition month_context :: "environment \<Rightarrow> int \<Rightarrow> int \<Rightarrow> context_dict" where
  "month_context env y m =
     (case get_first_last_day env y m of
        Inr (first_day, last_day) \<Rightarrow> document_context first_day last_day y m
      | Inl e \<Rightarrow> Map.empty)"

definition tidy ::
  "environment \<Rightarrow> string \<Rightarrow> int \<Rightarrow> int set \<Rightarrow> string \<Rightarrow> filesystem \<Rightarrow> bool" where
  "tidy env t y M c fs =
     (plain_name t \<and> 1 \<le> y \<and> y \<le> 9999 \<and> M \<subseteq> {1..12} \<and>
      fs [''data''] = Some Dir \<and> fs [''data'', ''intermediate''] = Some Dir \<and>
      fs [''data'', ''final''] = Some Dir \<and>
      fs [''data'', ''intermediate'', t] = Some (File True c) \<and>
      (\<forall>m\<in>M. \<exists>out. render_template env (universal_newlines c) (month_context env y m) = Inr out) \<and>
      (\<forall>a c. fs [''data'', ''final'', t] \<noteq> Some (File a c)) \<and>
      (\<forall>a c. fs [''data'', ''final'', t, str_int y] \<noteq> Some (File a c)) \<and>
      (\<forall>m\<in>M. fs [''data'', ''final'', t, str_int y, final_filename_of t y m] \<noteq> Some Dir \<and>
              (\<forall>c. fs [''data'', ''final'', t, str_int y, final_filename_of t y m] \<noteq> Some (File False c))))"

subsection \<open>Sample inputs\<close>

definition sample_env :: environment where
  "sample_env =
     \<lparr>now_year = 2025, now_month = 6, strftime_pads_year = False,
      py_str = (\<lambda>v. ''?''), jinja_other = (\<lambda>t c. Inl TemplateError)\<rparr>"

definition sample_dirs :: filesystem where
  "sample_dirs =
     [[''data''] \<mapsto> Dir, [''data'', ''base''] \<mapsto> Dir,
      [''data'', ''intermediate''] \<mapsto> Dir, [''data'', ''final''] \<mapsto> Dir]"

definition sample_fs :: filesystem where
  \<comment> \<open>a base template and an intermediate template\<close>
  "sample_fs =
     sample_dirs
       ([''data'', ''base'', ''receipt''] \<mapsto>
          File True ''No {{ tenant_number }} from {{ first_day }} to {{ last_day }}'',
        [''data'', ''intermediate'', ''rent''] \<mapsto>
          File True ''From {{ first_day }} to {{ last_day }}'')"


definition rent_tokens :: "token list" where
  "rent_tokens = [Data ''From '', Variable ''first_day'', Data '' to '', Variable ''last_day'']"



section \<open>Auxiliary facts\<close>






lemma isleap_spec: "isleap y = leap_year_spec y"
  by (auto simp: isleap_def leap_year_spec_def dvd_eq_mod_eq_0)

lemma month_cases:
  assumes "1 \<le> (m::int)" "m \<le> 12"
  shows "m = 1 \<or> m = 2 \<or> m = 3 \<or> m = 4 \<or> m = 5 \<or> m = 6 \<or> m = 7 \<or> m = 8 \<or> m = 9 \<or> m = 10 \<or> m = 11 \<or> m = 12"
  using assms by arith

lemma mdays_spec:
  assumes "1 \<le> m" "m \<le> 12"
  shows "mdays ! nat m + (if m = 2 \<and> isleap y then 1 else 0) = days_in_month_spec y m"
  using month_cases[OF assms]
  by (elim disjE) (simp_all add: mdays_def days_in_month_spec_def isleap_spec)

lemma days_in_month_bounds:
  "28 \<le> days_in_month_spec y m \<and> days_in_month_spec y m \<le> 31"
  by (simp add: days_in_month_spec_def)

lemma str_nat_small: "n < 10 \<Longrightarrow> str_nat n = [''0123456789'' ! n]"
  by (simp add: str_nat.simps)

lemma str_nat_big: "\<not> n < 10 \<Longrightarrow> str_nat n = str_nat (n div 10) @ [''0123456789'' ! (n mod 10)]"
  by (subst str_nat.simps) simp

lemma length_str_nat4:
  assumes "1000 \<le> n" "n < 10000"
  shows "length (str_nat n) = 4"
proof -
  have a: "\<not> n < 10" "\<not> n div 10 < 10" "\<not> n div 10 div 10 < 10" "n div 10 div 10 div 10 < 10"
    using assms by auto
  show ?thesis
    by (simp add: str_nat_big[OF a(1)] str_nat_big[OF a(2)] str_nat_big[OF a(3)] str_nat_small[OF a(4)])
qed

lemma length_str_nat2:
  assumes "10 \<le> n" "n < 100"
  shows "length (str_nat n) = 2"
proof -
  have a: "\<not> n < 10" "n div 10 < 10" using assms by auto
  show ?thesis by (simp add: str_nat_big[OF a(1)] str_nat_small[OF a(2)])
qed

lemma zfill2_nonneg:
  "0 \<le> i \<Longrightarrow> zfill 2 (str_int i) = fmt_02d i"
  by (simp add: fmt_02d_def str_int_def)

lemma get_first_last_day_ok:
  assumes "1 \<le> year" "year \<le> 9999" "1 \<le> month" "month \<le> 12"
  shows "get_first_last_day env year month =
     Inr (''01/'' @ fmt_02d month @ ''/'' @
            (if strftime_pads_year env then zfill 4 (str_int year) else str_int year),
          fmt_02d (days_in_month_spec year month) @ ''/'' @ fmt_02d month @ ''/'' @
            (if strftime_pads_year env then zfill 4 (str_int year) else str_int year))"
proof -
  have d1: "date year month 1 = Inr (year, month, 1)"
    using assms days_in_month_bounds[of year month]
    by (simp add: date_def c_int_def MINYEAR_def MAXYEAR_def mdays_spec)
  have mr: "monthrange_ndays year month = Inr (days_in_month_spec year month)"
    using assms by (simp add: monthrange_ndays_def mdays_spec)
  have d2: "date year month (days_in_month_spec year month) = Inr (year, month, days_in_month_spec year month)"
    using assms days_in_month_bounds[of year month]
    by (simp add: date_def c_int_def MINYEAR_def MAXYEAR_def mdays_spec)
  have one: "zfill 2 (str_int 1) = ''01''"
    by (simp add: zfill_def str_int_def str_nat.simps)
  have dd: "zfill 2 (str_int (days_in_month_spec year month)) = fmt_02d (days_in_month_spec year month)"
    using days_in_month_bounds[of year month] by (intro zfill2_nonneg) simp
  show ?thesis
    using assms by (simp add: get_first_last_day_def d1 mr d2 strftime_dmY_def one dd zfill2_nonneg)
qed

lemma year_text4:
  assumes "1000 \<le> year" "year \<le> 9999"
  shows "zfill 4 (str_int year) = str_int year \<and> length (str_int year) = 4"
proof -
  have "length (str_nat (nat year)) = 4" using assms by (intro length_str_nat4) auto
  then show ?thesis using assms by (simp add: zfill_def str_int_def)
qed

lemma scan_data:
  "CHR ''{'' \<notin> set d \<Longrightarrow> scan InData acc (d @ rest) = scan InData (acc @ d) rest"
  by (induction d arbitrary: acc) auto

lemma scan_name:
  "list_all name_char s \<Longrightarrow> scan (InName p) acc (s @ rest) = scan (InName (p @ s)) acc rest"
  by (induction s arbitrary: p) auto

lemma not_name_char [simp]: "\<not> name_char (CHR '' '')" "\<not> name_char (CHR ''}'')"
  by (simp_all add: name_char_def name_start_def)

lemma scan_placeholder:
  assumes "variable_name n"
  shows "scan InData acc (placeholder n @ rest) =
         map_option (\<lambda>ts. Data acc # Variable n # ts) (scan InData [] rest)"
proof -
  from assms obtain c n' where n: "n = c # n'" and c: "name_start c" and n': "list_all name_char n'"
    and r: "n \<notin> set reserved_names"
    by (cases n) (auto simp: variable_name_def)
  have sp: "c \<noteq> CHR '' ''" using c by (auto simp: name_start_def)
  have "scan InData acc (placeholder n @ rest) =
        map_option (Cons (Data acc)) (scan (InName [c]) [] (n' @ ('' }}'' @ rest)))"
    using c sp by (simp add: placeholder_def n)
  also have "scan (InName [c]) [] (n' @ ('' }}'' @ rest)) = scan (InName n) [] ('' }}'' @ rest)"
    by (simp add: scan_name[OF n'] n)
  also have "\<dots> = map_option (Cons (Variable n)) (scan InData [] rest)"
    using r by simp
  finally show ?thesis by (simp add: option.map_comp comp_def)
qed

lemma expand_Data: "expand env ctx (Data d) = d"
  by (simp add: expand_def)


lemma scan_unparse:
  "list_all simple_token toks \<Longrightarrow>
   \<exists>toks'. scan InData acc (unparse toks) = Some toks' \<and>
           concat (map (expand env ctx) toks') = acc @ concat (map (expand env ctx) toks)"
proof (induction toks arbitrary: acc)
  case Nil
  then show ?case by (simp add: expand_Data)
next
  case (Cons t ts)
  show ?case
  proof (cases t)
    case (Data d)
    with Cons.prems have d: "CHR ''{'' \<notin> set d" and ts: "list_all simple_token ts" by auto
    from Cons.IH[OF ts, of "acc @ d"] show ?thesis
      by (simp add: Data scan_data[OF d] expand_Data)
  next
    case (Variable n)
    with Cons.prems have v: "variable_name n" and ts: "list_all simple_token ts" by auto
    from Cons.IH[OF ts, of "[]"] obtain toks' where
      "scan InData [] (unparse ts) = Some toks'"
      "concat (map (expand env ctx) toks') = concat (map (expand env ctx) ts)" by auto
    then show ?thesis
      by (simp add: Variable scan_placeholder[OF v] expand_Data)
  qed
qed

lemma render_simple:
  assumes "jinja_source template_str = unparse toks" "list_all simple_token toks"
  shows "render_template env template_str ctx = Inr (concat (map (expand env ctx) toks))"
proof -
  from scan_unparse[OF assms(2), of "[]" env ctx] show ?thesis
    by (auto simp: render_template_def assms(1))
qed

lemma walk_mono:
  "(\<And>r. is_dir fs r \<Longrightarrow> is_dir fs' r) \<Longrightarrow> walk fs cur cs = Some q \<Longrightarrow> walk fs' cur cs = Some q"
  by (induction cs arbitrary: cur) (auto split: if_splits)

lemma walk_cong:
  "(\<And>r. is_dir fs' r = is_dir fs r) \<Longrightarrow> walk fs' cur cs = walk fs cur cs"
  by (induction cs arbitrary: cur) auto

lemma walk_snoc:
  "walk fs cur (xs @ [c]) =
     (case walk fs cur xs of None \<Rightarrow> None
      | Some p \<Rightarrow> if is_dir fs p then Some (step p c) else None)"
  by (induction xs arbitrary: cur) auto

lemma split_sep_nonempty: "split_sep acc a \<noteq> []"
  by (induction a arbitrary: acc) auto

lemma split_sep_append:
  "CHR ''/'' \<notin> set s \<Longrightarrow>
   split_sep acc (a @ s) = butlast (split_sep acc a) @ [last (split_sep acc a) @ s]"
proof (induction a arbitrary: acc)
  case Nil
  then show ?case by (induction s arbitrary: acc) auto
next
  case (Cons c a)
  then show ?case by (auto simp: split_sep_nonempty)
qed

lemma stat_mono:
  assumes dirs: "\<And>r. is_dir fs r \<Longrightarrow> is_dir fs' r"
    and keep: "\<And>r. fs r \<noteq> None \<Longrightarrow> fs' r = fs r"
    and st: "stat fs name = Some x"
  shows "stat fs' name = Some x"
proof -
  from st obtain q where q: "resolve fs name = Some q" and n: "node_at fs q = Some x"
    by (auto simp: stat_def split: option.splits)
  have "resolve fs' name = Some q"
    using q walk_mono[of fs fs'] dirs by (simp add: resolve_def)
  moreover have "node_at fs' q = Some x"
    using n keep[of q] by (auto simp: node_at_def split: if_splits)
  ultimately show ?thesis by (simp add: stat_def)
qed

lemma ensure_dir_keeps:
  "ensure_dir fs p = Some fs' \<Longrightarrow> fs r \<noteq> None \<Longrightarrow> fs' r = fs r"
  by (auto simp: ensure_dir_def node_at_def split: option.splits node.splits if_splits)

lemma mkwalk_keeps:
  "mkwalk fs cur cs = (fs', b) \<Longrightarrow> fs r \<noteq> None \<Longrightarrow> fs' r = fs r"
proof (induction cs arbitrary: fs cur)
  case Nil
  then show ?case by (auto split: option.splits dest: ensure_dir_keeps)
next
  case (Cons c cs)
  show ?case
  proof (cases "ensure_dir fs cur")
    case None
    with Cons.prems show ?thesis by simp
  next
    case (Some fs1)
    with Cons.prems have m: "mkwalk fs1 (step cur c) cs = (fs', b)" by simp
    have k: "fs1 r = fs r" using ensure_dir_keeps[OF Some Cons.prems(2)] .
    with Cons.prems(2) have "fs1 r \<noteq> None" by simp
    from Cons.IH[OF m this] k show ?thesis by simp
  qed
qed

lemma keeps_is_dir:
  "(\<And>r. fs r \<noteq> None \<Longrightarrow> fs' r = fs r) \<Longrightarrow> is_dir fs r \<Longrightarrow> is_dir fs' r"
  by (auto simp: is_dir_def node_at_def split: if_splits)

lemma makedirs_stat:
  assumes "makedirs fs name = (fs', b)" "stat fs n = Some x"
  shows "stat fs' n = Some x"
proof -
  have keep: "\<And>r. fs r \<noteq> None \<Longrightarrow> fs' r = fs r"
    using assms(1) mkwalk_keeps by (simp add: makedirs_def)
  show ?thesis
    by (rule stat_mono[OF _ keep assms(2)]) (auto intro: keeps_is_dir[OF keep])
qed

lemma write_textD:
  assumes "write_text fs name s = Some fs'"
  shows "\<exists>q. resolve fs name = Some q \<and> q \<noteq> [] \<and> fs q \<noteq> Some Dir \<and> fs' = fs(q \<mapsto> File True s)"
  using assms
  by (auto simp: write_text_def node_at_def split: option.splits node.splits if_splits)

lemma is_dir_upd_file:
  "q \<noteq> [] \<Longrightarrow> fs q \<noteq> Some Dir \<Longrightarrow> is_dir (fs(q \<mapsto> File a s)) r = is_dir fs r"
  by (auto simp: is_dir_def node_at_def)

lemma resolve_upd_file:
  "q \<noteq> [] \<Longrightarrow> fs q \<noteq> Some Dir \<Longrightarrow> resolve (fs(q \<mapsto> File a s)) name = resolve fs name"
  unfolding resolve_def by (rule walk_cong) (rule is_dir_upd_file)

lemma write_text_stat:
  assumes "write_text fs name s = Some fs'"
  shows "stat fs' name = Some (File True s)"
proof -
  from write_textD[OF assms] obtain q where
    q: "resolve fs name = Some q" "q \<noteq> []" "fs q \<noteq> Some Dir" "fs' = fs(q \<mapsto> File True s)" by blast
  then show ?thesis by (simp add: stat_def resolve_upd_file node_at_def)
qed

lemma write_text_other:
  assumes w: "write_text fs name s = Some fs'"
    and r1: "resolve fs name = Some q" and r2: "resolve fs other = Some q'" and ne: "q \<noteq> q'"
  shows "stat fs' other = stat fs other"
proof -
  from write_textD[OF w] r1 have
    q: "q \<noteq> []" "fs q \<noteq> Some Dir" "fs' = fs(q \<mapsto> File True s)" by auto
  then show ?thesis using r2 ne by (simp add: stat_def resolve_upd_file node_at_def)
qed

lemma digit_nth: "n < 10 \<Longrightarrow> isdecimal_char (''0123456789'' ! n)"
  unfolding isdecimal_char_def by (rule nth_mem) simp

lemma str_nat_digits: "str_nat n \<noteq> [] \<and> list_all isdecimal_char (str_nat n)"
proof (induction n rule: str_nat.induct)
  case (1 n)
  show ?case
  proof (cases "n < 10")
    case True
    then show ?thesis using digit_nth[OF True] by (simp add: str_nat_small)
  next
    case False
    have "n mod 10 < 10" by simp
    from digit_nth[OF this] 1[OF False] show ?thesis
      by (simp add: str_nat_big[OF False])
  qed
qed

lemma str_int_shape:
  "str_int y \<noteq> [] \<and> CHR ''/'' \<notin> set (str_int y) \<and> hd (str_int y) \<noteq> CHR ''/'' \<and> last (str_int y) \<noteq> CHR ''/''"
proof -
  have a: "str_int y \<noteq> []" using str_nat_digits by (simp add: str_int_def)
  have "\<not> isdecimal_char (CHR ''/'')" by (simp add: isdecimal_char_def)
  then have "CHR ''/'' \<notin> set (str_nat k)" for k
    using str_nat_digits[of k] by (auto simp: list_all_iff)
  then have b: "CHR ''/'' \<notin> set (str_int y)" by (simp add: str_int_def)
  from a b have "hd (str_int y) \<noteq> CHR ''/''" "last (str_int y) \<noteq> CHR ''/''"
    using hd_in_set last_in_set by metis+
  with a b show ?thesis by simp
qed

lemma fmt_02d_table:
  "fmt_02d 1 = ''01''" "fmt_02d 2 = ''02''" "fmt_02d 3 = ''03''" "fmt_02d 4 = ''04''"
  "fmt_02d 5 = ''05''" "fmt_02d 6 = ''06''" "fmt_02d 7 = ''07''" "fmt_02d 8 = ''08''"
  "fmt_02d 9 = ''09''" "fmt_02d 10 = ''10''" "fmt_02d 11 = ''11''" "fmt_02d 12 = ''12''"
  by (simp_all add: fmt_02d_def zfill_def str_nat.simps)

lemma fmt_02d_month:
  assumes "1 \<le> m" "m \<le> 12"
  shows "length (fmt_02d m) = 2 \<and> CHR ''/'' \<notin> set (fmt_02d m)"
  using month_cases[OF assms] by (elim disjE) (simp_all add: fmt_02d_table)

lemma fmt_02d_inj:
  assumes "1 \<le> j" "j \<le> 12" "1 \<le> k" "k \<le> 12" "fmt_02d j = fmt_02d k"
  shows "j = k"
  using month_cases[OF assms(1,2)] month_cases[OF assms(3,4)] assms(5)
  by (elim disjE) (simp_all add: fmt_02d_table)

lemma final_dir_last: "final_dir_of t y \<noteq> [] \<and> last (final_dir_of t y) \<noteq> CHR ''/''"
  using str_int_shape[of y]
  by (auto simp: final_dir_of_def os_path_join_def join2_def)

lemma final_path_shape:
  "final_document_path_of t y m = path_prefix t y @ fmt_02d m @ ''_'' @ str_int y @ ''.html''"
  using final_dir_last[of t y]
  by (cases t) (auto simp: final_document_path_of_def os_path_join_def join2_def
      final_filename_of_def path_prefix_def)

lemma resolve_final_path:
  assumes "resolve fs (final_document_path_of t y m) = Some q" "1 \<le> m" "m \<le> 12"
  shows "q \<noteq> [] \<and> last q = last (split_sep [] (path_prefix t y)) @ fmt_02d m @ ''_'' @ str_int y @ ''.html''"
proof -
  let ?s = "fmt_02d m @ ''_'' @ str_int y @ ''.html''"
  let ?c = "last (split_sep [] (path_prefix t y)) @ ?s"
  have ns: "CHR ''/'' \<notin> set ?s"
    using fmt_02d_month[OF assms(2,3)] str_int_shape[of y] by simp
  have sp: "split_sep [] (final_document_path_of t y m) =
            butlast (split_sep [] (path_prefix t y)) @ [?c]"
    unfolding final_path_shape by (rule split_sep_append[OF ns])
  have len: "length ?c \<ge> 5" by simp
  have st: "step p ?c = p @ [?c]" for p
  proof -
    have "?c \<noteq> []" "?c \<noteq> ''.''" "?c \<noteq> ''..''" using len by auto
    then show ?thesis unfolding step_def by presburger
  qed
  from assms(1) show ?thesis
    unfolding resolve_def sp walk_snoc st
    by (auto split: option.splits if_splits)
qed

lemma final_paths_differ:
  assumes "resolve fs (final_document_path_of t y j) = Some q"
    "resolve fs (final_document_path_of t y k) = Some q'"
    "1 \<le> j" "j \<le> 12" "1 \<le> k" "k \<le> 12" "j \<noteq> k"
  shows "q \<noteq> q'"
proof
  assume "q = q'"
  with resolve_final_path[OF assms(1,3,4)] resolve_final_path[OF assms(2,5,6)]
  have "fmt_02d j = fmt_02d k" by simp
  with fmt_02d_inj[OF assms(3-6)] assms(7) show False by simp
qed

lemma generate_document_cases:
  assumes "generate_document env fs request = (fs', res)"
  shows "(fs' = fs \<and> (\<exists>e. res = Inl e)) \<or>
         (\<exists>b. makedirs fs (final_dir_of (doc_template_name request) (req_year env request)) = (fs', b) \<and>
              (\<exists>e. res = Inl e)) \<or>
         (\<exists>fs1 out. 1 \<le> req_month env request \<and> req_month env request \<le> 12 \<and>
            makedirs fs (final_dir_of (doc_template_name request) (req_year env request)) = (fs1, True) \<and>
            write_text fs1 (final_document_path_of (doc_template_name request) (req_year env request)
                               (req_month env request)) out = Some fs' \<and>
            res = Inr (final_filename_of (doc_template_name request) (req_year env request)
                               (req_month env request),
                       final_document_path_of (doc_template_name request) (req_year env request)
                               (req_month env request)))"
  using assms unfolding generate_document_def req_year_def req_month_def Let_def
  by (auto split: if_splits sum.splits option.splits prod.splits bool.splits)

lemma month_request_sel [simp]:
  "doc_template_name (month_request t y m) = t"
  "req_year env (month_request t y m) = y"
  "req_month env (month_request t y m) = m"
  by (simp_all add: month_request_def req_year_def req_month_def)

lemma generate_document_preserves:
  assumes g: "generate_document env fs (month_request t y j) = (fs', res)"
    and k: "1 \<le> k" "k \<le> 12" "j \<noteq> k"
    and st: "stat fs (final_document_path_of t y k) = Some (File a c)"
  shows "stat fs' (final_document_path_of t y k) = Some (File a c)"
proof -
  from generate_document_cases[OF g]
  consider "fs' = fs"
    | b where "makedirs fs (final_dir_of t y) = (fs', b)"
    | fs1 out where "1 \<le> j" "j \<le> 12" "makedirs fs (final_dir_of t y) = (fs1, True)"
        "write_text fs1 (final_document_path_of t y j) out = Some fs'"
    by auto
  then show ?thesis
  proof cases
    case 1
    then show ?thesis using st by simp
  next
    case 2
    then show ?thesis using makedirs_stat st by blast
  next
    case 3
    have st1: "stat fs1 (final_document_path_of t y k) = Some (File a c)"
      using makedirs_stat[OF 3(3) st] .
    then obtain q' where q': "resolve fs1 (final_document_path_of t y k) = Some q'"
      by (auto simp: stat_def split: option.splits)
    from write_textD[OF 3(4)] obtain q where q: "resolve fs1 (final_document_path_of t y j) = Some q"
      by blast
    have "q \<noteq> q'" using final_paths_differ[OF q q' 3(1,2) k] .
    from write_text_other[OF 3(4) q q' this] st1 show ?thesis by simp
  qed
qed

lemma generate_document_written:
  assumes "generate_document env fs request = (fs', Inr r)"
  shows "r = (final_filename_of (doc_template_name request) (req_year env request) (req_month env request),
              final_document_path_of (doc_template_name request) (req_year env request) (req_month env request))
         \<and> 1 \<le> req_month env request \<and> req_month env request \<le> 12
         \<and> (\<exists>c. stat fs' (snd r) = Some (File True c))"
  using generate_document_cases[OF assms] write_text_stat by fastforce

lemma parse_month_request:
  "1 \<le> m \<Longrightarrow> m \<le> 12 \<Longrightarrow> parse_DocumentRequest (month_request t y m) = Inr (month_request t y m)"
  by (simp add: parse_DocumentRequest_def month_request_def)

lemma generate_months_Cons:
  assumes "1 \<le> m" "m \<le> 12"
  shows "generate_months env fs t y (m # ms) acc =
     (case generate_document env fs (month_request t y m) of
        (fs', Inl e) \<Rightarrow> (fs', Inl e)
      | (fs', Inr result) \<Rightarrow> generate_months env fs' t y ms (acc @ [fst result]))"
  using parse_month_request[OF assms, of t y] by (simp add: month_request_def)


lemma generate_months_failure:
  assumes "\<forall>m\<in>set ms. 1 \<le> m \<and> m \<le> 12"
    and "generate_months env fs t y ms acc = (fs', Inl e)"
  shows "\<exists>pre m post ss. ms = pre @ m # post \<and> run_ok env t y fs pre ss \<and>
            generate_document env (last (fs # ss)) (month_request t y m) = (fs', Inl e)"
  using assms
proof (induction ms arbitrary: fs acc)
  case Nil
  then show ?case by simp
next
  case (Cons m ms)
  from Cons.prems(1) have m: "1 \<le> m" "m \<le> 12" by auto
  obtain s res where g: "generate_document env fs (month_request t y m) = (s, res)"
    by (cases "generate_document env fs (month_request t y m)")
  show ?case
  proof (cases res)
    case (Inl e')
    with Cons.prems(2) g have "s = fs'" "e' = e" by (simp_all add: generate_months_Cons[OF m] del: generate_months.simps)
    with g Inl show ?thesis
      by (intro exI[of _ "[]"] exI[of _ m] exI[of _ ms]) simp
  next
    case (Inr r)
    from generate_document_written[OF g[unfolded Inr]]
    have r: "r = (final_filename_of t y m, final_document_path_of t y m)" by simp
    from Cons.prems(2) g Inr
    have "generate_months env s t y ms (acc @ [fst r]) = (fs', Inl e)"
      by (simp add: generate_months_Cons[OF m] del: generate_months.simps)
    from Cons.IH[OF _ this] Cons.prems(1) obtain pre m' post ss where
      ss: "ms = pre @ m' # post" "run_ok env t y s pre ss"
          "generate_document env (last (s # ss)) (month_request t y m') = (fs', Inl e)" by auto
    show ?thesis
      using ss g Inr r
      by (intro exI[of _ "m # pre"] exI[of _ m'] exI[of _ post] exI[of _ "s # ss"]) simp
  qed
qed

lemma read_text_isfile: "read_text fs name = Some c \<Longrightarrow> isfile fs name"
  by (auto simp: read_text_def isfile_def split: option.splits node.splits)




lemma split_sep_noslash:
  "CHR ''/'' \<notin> set s \<Longrightarrow> split_sep acc (s @ CHR ''/'' # rest) = (acc @ s) # split_sep [] rest"
  by (induction s arbitrary: acc) auto

lemma split_sep_last: "CHR ''/'' \<notin> set s \<Longrightarrow> split_sep acc s = [acc @ s]"
  by (induction s arbitrary: acc) auto

lemma plain_nameD:
  assumes "plain_name t"
  shows "CHR ''/'' \<notin> set t" "t \<noteq> []" "hd t \<noteq> CHR ''/''" "last t \<noteq> CHR ''/''"
    "step cur t = cur @ [t]"
proof -
  from assms show a: "CHR ''/'' \<notin> set t" and b: "t \<noteq> []" by (simp_all add: plain_name_def)
  from a b show "hd t \<noteq> CHR ''/''" using hd_in_set by metis
  from a b show "last t \<noteq> CHR ''/''" using last_in_set by metis
  from assms show "step cur t = cur @ [t]" by (simp add: plain_name_def step_def)
qed

lemma str_int_plain: "plain_name (str_int y)"
proof -
  have "\<not> isdecimal_char (CHR ''.'')" by (simp add: isdecimal_char_def)
  then have "CHR ''.'' \<notin> set (str_nat k)" for k
    using str_nat_digits[of k] by (auto simp: list_all_iff)
  then have "CHR ''.'' \<notin> set (str_int y)" by (simp add: str_int_def)
  then have "str_int y \<noteq> ''.''" "str_int y \<noteq> ''..''" by auto
  with str_int_shape[of y] show ?thesis by (simp add: plain_name_def)
qed

lemma filename_plain:
  assumes "plain_name t" "1 \<le> m" "m \<le> 12"
  shows "plain_name (final_filename_of t y m)"
proof -
  have "length (final_filename_of t y m) \<ge> 5" by (simp add: final_filename_of_def)
  then have "final_filename_of t y m \<noteq> []" "final_filename_of t y m \<noteq> ''.''"
    "final_filename_of t y m \<noteq> ''..''" by auto
  moreover have "CHR ''/'' \<notin> set (final_filename_of t y m)"
    using plain_nameD(1)[OF assms(1)] fmt_02d_month[OF assms(2,3)] str_int_shape[of y]
    by (simp add: final_filename_of_def)
  ultimately show ?thesis by (simp add: plain_name_def)
qed

lemma split_intermediate_path:
  assumes "plain_name t"
  shows "split_sep [] (os_path_join INTERMEDIATE_TEMPLATE_DIR [t]) =
           ['''', ''data'', ''intermediate'', t]"
  using plain_nameD(1-4)[OF assms]
  by (simp add: os_path_join_def join2_def INTERMEDIATE_TEMPLATE_DIR_def split_sep_last)

lemma final_dir_plain:
  assumes "plain_name t"
  shows "final_dir_of t y = ''/data/final/'' @ t @ ''/'' @ str_int y"
  using plain_nameD(1-4)[OF assms] plain_nameD(1-4)[OF str_int_plain[of y]]
  by (simp add: final_dir_of_def os_path_join_def join2_def FINAL_DOCUMENT_DIR_def)

lemma split_final_dir:
  assumes "plain_name t"
  shows "split_sep [] (final_dir_of t y) = ['''', ''data'', ''final'', t, str_int y]"
  using plain_nameD(1)[OF assms] plain_nameD(1)[OF str_int_plain[of y]]
  by (simp add: final_dir_plain[OF assms] split_sep_noslash split_sep_last)

lemma split_final_path:
  assumes "plain_name t" "1 \<le> m" "m \<le> 12"
  shows "split_sep [] (final_document_path_of t y m) =
           ['''', ''data'', ''final'', t, str_int y, final_filename_of t y m]"
proof -
  have p: "final_document_path_of t y m =
           ''/data/final/'' @ t @ ''/'' @ str_int y @ ''/'' @ final_filename_of t y m"
    using plain_nameD(1-4)[OF filename_plain[OF assms, of y]] plain_nameD(1-4)[OF str_int_plain[of y]]
    by (simp add: final_document_path_of_def os_path_join_def join2_def final_dir_plain[OF assms(1)])
  show ?thesis
    using plain_nameD(1)[OF assms(1)] plain_nameD(1)[OF str_int_plain[of y]]
      plain_nameD(1)[OF filename_plain[OF assms, of y]]
    by (simp add: p split_sep_noslash split_sep_last)
qed


lemma generate_document_render_error:
  assumes "1 \<le> m" "m \<le> 12"
    and "get_first_last_day env y m = Inr (first_day, last_day)"
    and "read_text fs (os_path_join INTERMEDIATE_TEMPLATE_DIR [t]) = Some content"
    and "render_template env content (document_context first_day last_day y m) = Inl e"
  shows "generate_document env fs (month_request t y m) = (fs, Inl (HTTPException 500))"
  using assms read_text_isfile[OF assms(4)]
  by (simp add: generate_document_def month_request_def Let_def)

lemma ensure_dir_root: "ensure_dir fs [] = Some fs"
  by (simp add: ensure_dir_def node_at_def)

lemma ensure_dir_ok:
  "p \<noteq> [] \<Longrightarrow> \<forall>a c. fs p \<noteq> Some (File a c) \<Longrightarrow> ensure_dir fs p = Some (fs(p \<mapsto> Dir))"
  by (cases "fs p") (auto simp: ensure_dir_def node_at_def fun_upd_idem split: node.splits)

lemma step_sample:
  "step cur [] = cur" "step cur ''data'' = cur @ [''data'']"
  "step cur ''final'' = cur @ [''final'']" "step cur ''intermediate'' = cur @ [''intermediate'']"
  by (simp_all add: step_def)

lemma tidy_read:
  assumes "tidy env t y M c fs"
  shows "read_text fs (os_path_join INTERMEDIATE_TEMPLATE_DIR [t]) = Some (universal_newlines c)"
proof -
  from assms have p: "plain_name t" and d: "fs [''data''] = Some Dir"
    "fs [''data'', ''intermediate''] = Some Dir"
    and c: "fs [''data'', ''intermediate'', t] = Some (File True c)" by (simp_all add: tidy_def)
  have "resolve fs (os_path_join INTERMEDIATE_TEMPLATE_DIR [t]) = Some [''data'', ''intermediate'', t]"
    using d by (simp add: resolve_def split_intermediate_path[OF p] is_dir_def node_at_def
        step_sample plain_nameD(5)[OF p])
  then show ?thesis using c by (simp add: read_text_def stat_def node_at_def)
qed

lemma tidy_makedirs:
  assumes "tidy env t y M c fs"
  shows "makedirs fs (final_dir_of t y) =
           (fs([''data'', ''final'', t] \<mapsto> Dir, [''data'', ''final'', t, str_int y] \<mapsto> Dir), True)"
proof -
  from assms have p: "plain_name t" and d: "fs [''data''] = Some Dir"
    "fs [''data'', ''final''] = Some Dir"
    and f: "\<forall>a c. fs [''data'', ''final'', t] \<noteq> Some (File a c)"
      "\<forall>a c. fs [''data'', ''final'', t, str_int y] \<noteq> Some (File a c)"
    by (simp_all add: tidy_def)
  have i1: "fs([''data''] \<mapsto> Dir) = fs" "fs([''data'', ''final''] \<mapsto> Dir) = fs"
    using d by (auto simp: fun_upd_idem)
  show ?thesis
    using d f i1
    by (simp add: makedirs_def split_final_dir[OF p] ensure_dir_ok ensure_dir_root step_sample
        plain_nameD(5)[OF p] plain_nameD(5)[OF str_int_plain])
qed

lemma tidy_write:
  assumes "tidy env t y M c fs" "m \<in> M"
  shows "write_text (fs([''data'', ''final'', t] \<mapsto> Dir, [''data'', ''final'', t, str_int y] \<mapsto> Dir))
           (final_document_path_of t y m) out =
         Some (fs([''data'', ''final'', t] \<mapsto> Dir, [''data'', ''final'', t, str_int y] \<mapsto> Dir,
                  [''data'', ''final'', t, str_int y, final_filename_of t y m] \<mapsto> File True out))"
proof -
  let ?fs1 = "fs([''data'', ''final'', t] \<mapsto> Dir, [''data'', ''final'', t, str_int y] \<mapsto> Dir)"
  let ?q = "[''data'', ''final'', t, str_int y, final_filename_of t y m]"
  from assms have p: "plain_name t" and d: "fs [''data''] = Some Dir"
    "fs [''data'', ''final''] = Some Dir" and m: "1 \<le> m" "m \<le> 12"
    and n: "fs ?q \<noteq> Some Dir" "\<forall>c. fs ?q \<noteq> Some (File False c)"
    by (auto simp: tidy_def)
  have r: "resolve ?fs1 (final_document_path_of t y m) = Some ?q"
    using d by (simp add: resolve_def split_final_path[OF p m] is_dir_def node_at_def step_sample
        plain_nameD(5)[OF p] plain_nameD(5)[OF str_int_plain] plain_nameD(5)[OF filename_plain[OF p m]])
  have "node_at ?fs1 ?q = fs ?q" by (simp add: node_at_def)
  with r n show ?thesis
    by (auto simp: write_text_def split: option.splits node.splits)
qed



lemma run_ok_length: "run_ok env t y fs ms ss \<Longrightarrow> length ss = length ms"
  by (induction env t y fs ms ss rule: run_ok.induct) auto

lemma run_ok_keeps:
  "run_ok env t y fs ms ss \<Longrightarrow> k \<notin> set ms \<Longrightarrow> 1 \<le> k \<Longrightarrow> k \<le> 12 \<Longrightarrow>
   stat fs (final_document_path_of t y k) = Some (File a c) \<Longrightarrow>
   stat (last (fs # ss)) (final_document_path_of t y k) = Some (File a c)"
proof (induction env t y fs ms ss rule: run_ok.induct)
  case (2 env t y fs m ms s ss)
  from "2.prems" have g: "generate_document env fs (month_request t y m) =
        (s, Inr (final_filename_of t y m, final_document_path_of t y m))"
    and r: "run_ok env t y s ms ss" and ne: "m \<noteq> k" "k \<notin> set ms" by auto
  have "stat s (final_document_path_of t y k) = Some (File a c)"
    using generate_document_preserves[OF g "2.prems"(3,4) ne(1) "2.prems"(5)] .
  from "2.IH"[OF r ne(2) "2.prems"(3,4) this] show ?case by simp
qed auto

lemma run_ok_written:
  "run_ok env t y fs ms ss \<Longrightarrow> distinct ms \<Longrightarrow> \<forall>m\<in>set ms. 1 \<le> m \<and> m \<le> 12 \<Longrightarrow> i < length ms \<Longrightarrow>
   \<exists>c. stat (ss ! i) (final_document_path_of t y (ms ! i)) = Some (File True c) \<and>
       stat (last (fs # ss)) (final_document_path_of t y (ms ! i)) = Some (File True c)"
proof (induction env t y fs ms ss arbitrary: i rule: run_ok.induct)
  case (2 env t y fs m ms s ss)
  from "2.prems" have g: "generate_document env fs (month_request t y m) =
        (s, Inr (final_filename_of t y m, final_document_path_of t y m))"
    and r: "run_ok env t y s ms ss" and d: "m \<notin> set ms" "distinct ms"
    and b: "1 \<le> m" "m \<le> 12" "\<forall>m\<in>set ms. 1 \<le> m \<and> m \<le> 12" by auto
  show ?case
  proof (cases i)
    case 0
    from generate_document_written[OF g] obtain c where
      c: "stat s (final_document_path_of t y m) = Some (File True c)" by auto
    from run_ok_keeps[OF r d(1) b(1,2) c] c show ?thesis using 0 by auto
  next
    case (Suc j)
    with "2.prems"(4) have j: "j < length ms" by simp
    from "2.IH"[OF r d(2) b(3) j] show ?thesis using Suc by simp
  qed
qed auto

lemma upto_split_at:
  assumes "[a..b] = pre @ m # post"
  shows "a \<le> m \<and> m \<le> b \<and> pre = [a..m - 1]"
proof -
  have "m \<in> set [a..b]" unfolding assms by simp
  then have m: "a \<le> m" "m \<le> b" by auto
  have d: "distinct (pre @ m # post)" using assms distinct_upto by metis
  have "[a..b] = [a..m - 1] @ m # [m + 1..b]" using upto_split3[OF m] .
  with assms have "pre @ m # post = [a..m - 1] @ m # [m + 1..b]" by simp
  moreover from d have "m \<notin> set pre" "m \<notin> set post" by auto
  ultimately have "pre = [a..m - 1]" by (simp add: append_Cons_eq_iff)
  with m show ?thesis by simp
qed

lemma month_names:
  "map (final_filename_of t y) [1..12] =
     [t @ ''_01_'' @ str_int y @ ''.html'', t @ ''_02_'' @ str_int y @ ''.html'',
      t @ ''_03_'' @ str_int y @ ''.html'', t @ ''_04_'' @ str_int y @ ''.html'',
      t @ ''_05_'' @ str_int y @ ''.html'', t @ ''_06_'' @ str_int y @ ''.html'',
      t @ ''_07_'' @ str_int y @ ''.html'', t @ ''_08_'' @ str_int y @ ''.html'',
      t @ ''_09_'' @ str_int y @ ''.html'', t @ ''_10_'' @ str_int y @ ''.html'',
      t @ ''_11_'' @ str_int y @ ''.html'', t @ ''_12_'' @ str_int y @ ''.html'']"
proof -
  have "[1..12] = [1, 2, 3, 4, 5, 6, 7, 8, 9, 10, 11, 12::int]"
    by (simp add: upto_rec1)
  then show ?thesis by (simp add: final_filename_of_def fmt_02d_table)
qed

lemma date_names_ok:
  "variable_name ''first_day''" "variable_name ''last_day''" "variable_name ''year''"
  "variable_name ''month''" "variable_name ''tenant_number''"
  by (simp_all add: variable_name_def name_start_def name_char_def reserved_names_def)

lemma rent_tokens_simple: "list_all simple_token rent_tokens"
  by (simp add: rent_tokens_def date_names_ok)

lemma rent_source:
  "jinja_source (universal_newlines ''From {{ first_day }} to {{ last_day }}'') = unparse rent_tokens"
  by (simp add: jinja_source_def rent_tokens_def placeholder_def CR_def LF_def)

lemma rent_renders:
  "\<exists>out. render_template env (universal_newlines ''From {{ first_day }} to {{ last_day }}'') ctx = Inr out"
  using render_simple[OF rent_source rent_tokens_simple] by blast

lemma plain_rent: "plain_name ''rent''"
  by (simp add: plain_name_def)

lemma sample_tidy:
  "tidy sample_env ''rent'' 2025 {1..12} ''From {{ first_day }} to {{ last_day }}'' sample_fs"
  unfolding tidy_def
  by (intro conjI ballI plain_rent rent_renders)
     (simp_all add: sample_fs_def sample_dirs_def)


lemma rent_text: 
  "universal_newlines ''From {{ first_day }} to {{ last_day }}'' = ''From {{ first_day }} to {{ last_day }}''"
  by (simp add: CR_def LF_def)

lemma first_last_day_year0: "get_first_last_day env 0 3 = Inl ValueError"
  by (simp add: get_first_last_day_def date_def c_int_def MINYEAR_def)

lemma generate_document_date_error:
  assumes "1 \<le> m" "m \<le> 12" "get_first_last_day env y m = Inl e"
  shows "generate_document env fs (month_request t y m) = (fs, Inl e)"
  using assms by (simp add: generate_document_def month_request_def Let_def)

















section \<open>The claims\<close>

subsection \<open>C2: validation of the tenant number\<close>




subsection \<open>C3: a month out of range in a generate-document request\<close>

text \<open>
  Claim C3 as stated expects the error 400 of the endpoint function. A request with
  month 0 or 13 never reaches that function: the field constraint \<^verbatim>\<open>ge=1, le=12\<close> of
  \<^verbatim>\<open>DocumentRequest\<close> rejects it while the request is deserialised, with a validation
  error.
\<close>

theorem month_claim_counterexample:
  "post_generate_document sample_env sample_fs
     \<lparr>doc_template_name = ''rent'', doc_year = Some 2025, doc_month = Some 0\<rparr> =
     (sample_fs, Inl ValidationError) \<and>
   post_generate_document sample_env sample_fs
     \<lparr>doc_template_name = ''rent'', doc_year = Some 2025, doc_month = Some 13\<rparr> =
     (sample_fs, Inl ValidationError) \<and>
   ValidationError \<noteq> HTTPException 400"
  by (simp add: post_generate_document_def parse_DocumentRequest_def)

text \<open>
  Claim C3, amended: a generate-document request with an explicit month outside 1..12
  fails before any file access, with the file system unchanged. The request model
  rejects it during deserialisation with a validation error (422), through the field
  constraint of \<^verbatim>\<open>DocumentRequest\<close>, a code path distinct from the tenant number
  validator. The check of the endpoint function, which raises the error 400, is a
  second code path: it answers a request object that reaches the function with such a
  month, also before any file access.
\<close>

theorem month_out_of_range:
  assumes "m < 1 \<or> m > 12"
  shows "post_generate_document env fs
           \<lparr>doc_template_name = t, doc_year = y, doc_month = Some m\<rparr> = (fs, Inl ValidationError)
       \<and> generate_document env fs
           \<lparr>doc_template_name = t, doc_year = y, doc_month = Some m\<rparr> = (fs, Inl (HTTPException 400))"
  using assms
  by (auto simp: post_generate_document_def parse_DocumentRequest_def generate_document_def)

theorem month_out_of_range_witness:
  "((0::int) < 1 \<or> (0::int) > 12) \<and>
   post_generate_document sample_env sample_fs
     \<lparr>doc_template_name = ''rent'', doc_year = None, doc_month = Some 0\<rparr> = (sample_fs, Inl ValidationError) \<and>
   generate_document sample_env sample_fs
     \<lparr>doc_template_name = ''rent'', doc_year = None, doc_month = Some 0\<rparr> = (sample_fs, Inl (HTTPException 400))"
proof -
  have h: "(0::int) < 1 \<or> (0::int) > 12" by simp
  from month_out_of_range[OF h, of sample_env sample_fs "''rent''" None] h show ?thesis by simp
qed

subsection \<open>C5: first and last day of a month\<close>

text \<open>
  Claim C5 as stated speaks of every year. \<^verbatim>\<open>datetime.date\<close> has no year 0: the
  function raises \<^verbatim>\<open>ValueError\<close>.
\<close>

theorem first_last_day_claim_counterexample:
  "get_first_last_day sample_env 0 2 = Inl ValueError"
  by (simp add: get_first_last_day_def date_def c_int_def MINYEAR_def)

text \<open>
  Claim C5, amended: for every year between 1 and 9999 and every month between 1 and
  12, \<^verbatim>\<open>get_first_last_day\<close> returns the first and the last day of the month as
  \<^verbatim>\<open>DD/MM/YYYY\<close>: the day is 01 for the first; for the last it is the length of the
  month by the calendar (30 or 31 days, February 28 or 29 with the Gregorian leap
  rule); day and month have two digits; the year has four digits from the year 1000
  on (below, the C library decides whether it is padded). The two examples of the
  claim hold.
\<close>

theorem first_last_day:
  assumes "1 \<le> year" "year \<le> 9999" "1 \<le> month" "month \<le> 12"
  shows "get_first_last_day env year month =
           Inr (''01/'' @ fmt_02d month @ ''/'' @
                  (if strftime_pads_year env then zfill 4 (str_int year) else str_int year),
                fmt_02d (days_in_month_spec year month) @ ''/'' @ fmt_02d month @ ''/'' @
                  (if strftime_pads_year env then zfill 4 (str_int year) else str_int year))
       \<and> length (fmt_02d month) = 2
       \<and> length (fmt_02d (days_in_month_spec year month)) = 2
       \<and> (1000 \<le> year \<longrightarrow> zfill 4 (str_int year) = str_int year \<and> length (str_int year) = 4)
       \<and> get_first_last_day env 2024 2 = Inr (''01/02/2024'', ''29/02/2024'')
       \<and> get_first_last_day env 2023 2 = Inr (''01/02/2023'', ''28/02/2023'')"
proof -
  have d: "length (fmt_02d (days_in_month_spec year month)) = 2"
  proof -
    have "10 \<le> nat (days_in_month_spec year month)" "nat (days_in_month_spec year month) < 100"
      using days_in_month_bounds[of year month] by auto
    from length_str_nat2[OF this] days_in_month_bounds[of year month]
    show ?thesis by (simp add: fmt_02d_def zfill_def)
  qed
  have e1: "get_first_last_day env 2024 2 = Inr (''01/02/2024'', ''29/02/2024'')"
    by (simp add: get_first_last_day_ok days_in_month_spec_def leap_year_spec_def fmt_02d_def
        zfill_def str_int_def str_nat.simps)
  have e2: "get_first_last_day env 2023 2 = Inr (''01/02/2023'', ''28/02/2023'')"
    by (simp add: get_first_last_day_ok days_in_month_spec_def leap_year_spec_def fmt_02d_def
        zfill_def str_int_def str_nat.simps)
  show ?thesis
    using get_first_last_day_ok[OF assms, of env] fmt_02d_month[OF assms(3,4)] d
      year_text4[of year] assms(2) e1 e2
    by simp
qed

theorem first_last_day_witness:
  "get_first_last_day sample_env 1900 2 = Inr (''01/02/1900'', ''28/02/1900'') \<and>
   get_first_last_day sample_env 2000 12 = Inr (''01/12/2000'', ''31/12/2000'')"
proof -
  have a: "(1::int) \<le> 1900" "(1900::int) \<le> 9999" "(1::int) \<le> 2" "(2::int) \<le> 12" by simp_all
  have b: "(1::int) \<le> 2000" "(2000::int) \<le> 9999" "(1::int) \<le> 12" "(12::int) \<le> 12" by simp_all
  from first_last_day[OF a, of sample_env] first_last_day[OF b, of sample_env]
  show ?thesis
    by (simp add: sample_env_def days_in_month_spec_def leap_year_spec_def fmt_02d_def
        zfill_def str_int_def str_nat.simps)
qed

subsection \<open>C4: the year of a generate-document request\<close>

text \<open>
  Claim C4 as stated lets the year be any integer. The intermediate template
  \<^verbatim>\<open>rent\<close> exists and can be read, the month is 3, and the year 0 makes the date
  computation raise \<^verbatim>\<open>ValueError\<close>, which nothing catches.
\<close>

theorem year_claim_counterexample:
  "read_text sample_fs (os_path_join INTERMEDIATE_TEMPLATE_DIR [''rent'']) =
     Some ''From {{ first_day }} to {{ last_day }}'' \<and>
   generate_document sample_env sample_fs (month_request ''rent'' 0 3) = (sample_fs, Inl ValueError)"
proof -
  have m: "(1::int) \<le> 3" "(3::int) \<le> 12" by simp_all
  have r: "read_text sample_fs (os_path_join INTERMEDIATE_TEMPLATE_DIR [''rent'']) =
     Some ''From {{ first_day }} to {{ last_day }}''"
    using tidy_read[OF sample_tidy] unfolding rent_text .
  from r generate_document_date_error[OF m first_last_day_year0] show ?thesis by (rule conjI)
qed

text \<open>
  Claim C4, amended: the year is not validated, and for every year between 1 and 9999
  (the years of \<^verbatim>\<open>datetime.date\<close>), with the month between 1 and 12 and the
  intermediate template existing and readable, the year causes no failure. The date
  computation succeeds; the document generator can then only fail with the error 500
  of a failed rendering or write, or with the \<^verbatim>\<open>OSError\<close> of a failed directory
  creation; and when the template renders, the directory can be created and the file
  can be written, the generator succeeds with the file name and the path of the
  month.
\<close>

theorem year_in_date_range:
  assumes "1 \<le> y" "y \<le> 9999" "1 \<le> m" "m \<le> 12"
    and "read_text fs (os_path_join INTERMEDIATE_TEMPLATE_DIR [t]) = Some content"
  shows "\<exists>first_day last_day.
           get_first_last_day env y m = Inr (first_day, last_day) \<and>
           (case snd (generate_document env fs (month_request t y m)) of
              Inl e \<Rightarrow> e = HTTPException 500 \<or> e = OSError
            | Inr r \<Rightarrow> r = (final_filename_of t y m, final_document_path_of t y m)) \<and>
           (\<forall>out fs1 fs2.
              render_template env content (document_context first_day last_day y m) = Inr out \<longrightarrow>
              makedirs fs (final_dir_of t y) = (fs1, True) \<longrightarrow>
              write_text fs1 (final_document_path_of t y m) out = Some fs2 \<longrightarrow>
              generate_document env fs (month_request t y m) =
                (fs2, Inr (final_filename_of t y m, final_document_path_of t y m)))"
proof -
  from get_first_last_day_ok[OF assms(1-4), of env] obtain a b where
    d: "get_first_last_day env y m = Inr (a, b)" by blast
  have f: "isfile fs (os_path_join INTERMEDIATE_TEMPLATE_DIR [t])"
    using read_text_isfile[OF assms(5)] .
  show ?thesis
    using assms(3,4) d f assms(5)
    by (intro exI[of _ a] exI[of _ b])
       (auto simp: generate_document_def month_request_def Let_def
             split: sum.splits option.splits prod.splits bool.splits)
qed

theorem year_in_date_range_witness:
  "read_text sample_fs (os_path_join INTERMEDIATE_TEMPLATE_DIR [''rent'']) =
     Some (universal_newlines ''From {{ first_day }} to {{ last_day }}'') \<and>
   (\<exists>fs'. generate_document sample_env sample_fs (month_request ''rent'' 2025 3) =
            (fs', Inr (final_filename_of ''rent'' 2025 3, final_document_path_of ''rent'' 2025 3)))"
proof -
  let ?c = "universal_newlines ''From {{ first_day }} to {{ last_day }}''"
  have y: "(1::int) \<le> 2025" "(2025::int) \<le> 9999" "(1::int) \<le> 3" "(3::int) \<le> 12" by simp_all
  have r: "read_text sample_fs (os_path_join INTERMEDIATE_TEMPLATE_DIR [''rent'']) = Some ?c"
    by (rule tidy_read[OF sample_tidy])
  from year_in_date_range[OF y r, of sample_env] obtain first_day last_day where
    s: "\<forall>out fs1 fs2.
          render_template sample_env ?c (document_context first_day last_day 2025 3) = Inr out \<longrightarrow>
          makedirs sample_fs (final_dir_of ''rent'' 2025) = (fs1, True) \<longrightarrow>
          write_text fs1 (final_document_path_of ''rent'' 2025 3) out = Some fs2 \<longrightarrow>
          generate_document sample_env sample_fs (month_request ''rent'' 2025 3) =
            (fs2, Inr (final_filename_of ''rent'' 2025 3, final_document_path_of ''rent'' 2025 3))"
    by blast
  from rent_renders obtain out where
    o: "render_template sample_env ?c (document_context first_day last_day 2025 3) = Inr out"
    by blast
  have m: "(3::int) \<in> {1..12}" by simp
  from s o tidy_makedirs[OF sample_tidy] tidy_write[OF sample_tidy m, of out]
  have "\<exists>fs'. generate_document sample_env sample_fs (month_request ''rent'' 2025 3) =
            (fs', Inr (final_filename_of ''rent'' 2025 3, final_document_path_of ''rent'' 2025 3))"
    by blast
  with r show ?thesis by simp
qed

subsection \<open>C6: generation and lookup\<close>



subsection \<open>C7: all the documents of a year\<close>



subsection \<open>C1: placeholders that the context does not bind\<close>




subsection \<open>C9: generating an intermediate template twice\<close>



end
